theory Spec2Isabelle
  imports Complex_Main
begin

section \<open>The Phoenix cardinality observer\<close>

text \<open>
  A shallow embedding of the class \<open>PhoenixCardinalityObserver\<close>, which occurs with the
  same text in \<^verbatim>\<open>legacy/phoenix-cardinality-observer.py\<close> and in
  \<^verbatim>\<open>phoenix-toolkit.py\<close>, and of the two \<open>main\<close> functions that start it.

  Conventions of the embedding:
  \<^item> The mode strings \<^verbatim>\<open>"moderate"\<close>, \<^verbatim>\<open>"adaptive"\<close>, \<^verbatim>\<open>"ultra"\<close> are the constructors
    of a datatype.
  \<^item> Python integers are \<open>int\<close>. Python floats (the thresholds and every value computed
    from them) are exact rationals: the rounding error of IEEE arithmetic, infinities
    and NaN are outside the model. Every concrete evaluation below is at an input whose
    exact value lies far from an integer boundary, so that the floating-point trace
    agrees with it.
  \<^item> \<open>self\<close> is a record that each method takes and, where it assigns to a field,
    returns.
  \<^item> An exception is a value \<open>Inl e\<close> of a sum type; a \<^verbatim>\<open>try/except\<close> is a case
    distinction on it.
\<close>

subsection \<open>Data\<close>

datatype mode = Moderate | Adaptive | Ultra

record thresholds =
  moderate :: rat
  adaptive :: rat
  ultra :: rat

record observer =
  main_collector_url :: string
  control_file_path :: string
  running :: bool
  thresholds :: thresholds
  current_mode :: mode
  last_cardinality_count :: int
  mode_change_count :: int

definition default_thresholds :: thresholds where
  "default_thresholds = \<lparr>moderate = 300, adaptive = 375, ultra = 450\<rparr>"

text \<open>
  \<open>__init__\<close>. The argument \<open>thresholds=None\<close> is \<open>None\<close> here; a dictionary with the
  three keys is truthy, so \<^verbatim>\<open>thresholds or {...}\<close> keeps it.
\<close>

definition init_observer :: "string \<Rightarrow> string \<Rightarrow> thresholds option \<Rightarrow> observer" where
  "init_observer url path ths =
     \<lparr>main_collector_url = url,
      control_file_path = path,
      running = False,
      thresholds = (case ths of None \<Rightarrow> default_thresholds | Some t \<Rightarrow> t),
      current_mode = Moderate,
      last_cardinality_count = 0,
      mode_change_count = 0\<rparr>"

subsection \<open>The classifier\<close>

text \<open>Python's \<open>int(x)\<close> on a float: truncation toward zero.\<close>

definition py_int :: "rat \<Rightarrow> int" where
  "py_int q = (if 0 \<le> q then \<lfloor>q\<rfloor> else \<lceil>q\<rceil>)"

text \<open>
  \<open>determine_optimization_mode\<close>. The two divisions cannot fail: in the second branch
  \<open>moderate < count \<le> adaptive\<close> makes \<open>range_size\<close> positive, and in the last branch
  the division is reached only when \<open>0 < excess < max_excess\<close>.
\<close>

definition determine_optimization_mode :: "observer \<Rightarrow> int \<Rightarrow> mode \<times> int" where
  "determine_optimization_mode self cardinality_count =
     (if of_int cardinality_count \<le> moderate (thresholds self) then (Moderate, 0)
      else if of_int cardinality_count \<le> adaptive (thresholds self) then
        (let range_size = adaptive (thresholds self) - moderate (thresholds self);
             position = of_int cardinality_count - moderate (thresholds self);
             opt_level = py_int (26 + (position / range_size) * 49)
         in (Adaptive, min 75 (max 26 opt_level)))
      else
        (let excess = of_int cardinality_count - adaptive (thresholds self);
             max_excess = ultra (thresholds self) - adaptive (thresholds self)
         in if excess \<ge> max_excess then (Ultra, 100)
            else
              (let opt_level = py_int (76 + (excess / max_excess) * 24)
               in (Ultra, min 100 (max 76 opt_level)))))"

text \<open>
  The specification's reading of the adaptive tier: the exact value, rounded half-up or
  half-to-even (banker's), then clamped.
\<close>

definition spec_adaptive_value :: "thresholds \<Rightarrow> int \<Rightarrow> rat" where
  "spec_adaptive_value t c = 26 + (of_int c - moderate t) / (adaptive t - moderate t) * 49"






definition default_observer :: observer where
  "default_observer = init_observer ''http://localhost:8888/metrics''
     ''configs/control_signals/opt_mode.yaml'' (Some default_thresholds)"

subsection \<open>The estimator\<close>

datatype py_error = IndexError | RequestException | OSError

text \<open>\<open>s.split(sep)\<close> for a one-character separator; the result is never empty.\<close>

fun str_split :: "char \<Rightarrow> string \<Rightarrow> string list" where
  "str_split sep [] = [[]]"
| "str_split sep (x # xs) =
     (if x = sep then [] # str_split sep xs
      else (case str_split sep xs of
              [] \<Rightarrow> [[x]]
            | w # ws \<Rightarrow> (x # w) # ws))"

definition startswith :: "string \<Rightarrow> string \<Rightarrow> bool" where
  "startswith s p = (take (length p) s = p)"

text \<open>\<open>xs[i]\<close> for \<open>i \<ge> 0\<close>: an index out of range raises.\<close>

definition getitem :: "'a list \<Rightarrow> nat \<Rightarrow> py_error + 'a" where
  "getitem xs i = (if i < length xs then Inr (xs ! i) else Inl IndexError)"

text \<open>
  The body of the loop over \<open>phoenix_metrics\<close>: the key that one line adds to
  \<open>unique_series\<close>.
\<close>

definition series_key :: "string \<Rightarrow> py_error + string" where
  "series_key metric_line =
     (if CHR ''{'' \<in> set metric_line then
        (case getitem (str_split CHR ''{'' metric_line) 0 of
           Inl e \<Rightarrow> Inl e
         | Inr metric_name \<Rightarrow>
            (case getitem (str_split CHR ''{'' metric_line) 1 of
               Inl e \<Rightarrow> Inl e
             | Inr after_brace \<Rightarrow>
                (case getitem (str_split CHR ''}'' after_brace) 0 of
                   Inl e \<Rightarrow> Inl e
                 | Inr labels_part \<Rightarrow> Inr (metric_name @ ''#'' @ labels_part))))
      else
        (case getitem (str_split CHR '' '' metric_line) 0 of
           Inl e \<Rightarrow> Inl e
         | Inr metric_name \<Rightarrow> Inr metric_name))"

fun collect_series :: "string list \<Rightarrow> string set \<Rightarrow> py_error + string set" where
  "collect_series [] unique_series = Inr unique_series"
| "collect_series (metric_line # rest) unique_series =
     (case series_key metric_line of
        Inl e \<Rightarrow> Inl e
      | Inr k \<Rightarrow> collect_series rest (insert k unique_series))"

text \<open>
  The same key written without \<open>split\<close>: the text before the first opening brace, a
  \<open>#\<close>, and the text after that brace up to the next brace of either kind or the end
  of the line; for a line without an opening brace, the text before the first space.
  It is shown equal to \<open>series_key\<close> below.
\<close>

definition key_of_line :: "string \<Rightarrow> string" where
  "key_of_line l =
     (if CHR ''{'' \<in> set l then
        takeWhile (\<lambda>c. c \<noteq> CHR ''{'') l @ ''#''
          @ takeWhile (\<lambda>c. c \<noteq> CHR ''{'' \<and> c \<noteq> CHR ''}'')
              (tl (dropWhile (\<lambda>c. c \<noteq> CHR ''{'') l))
      else takeWhile (\<lambda>c. c \<noteq> CHR '' '') l)"

text \<open>
  The dictionary that \<open>get_cardinality_metrics\<close> returns. Its entry \<open>sample_metrics\<close>,
  the first five keys in the iteration order of a Python set, is not modelled: that
  order is unspecified, and nothing below depends on it.
\<close>

record cardinality_data =
  cardinality_count :: int
  total_metrics :: int
  timestamp :: rat

definition phoenix_metrics :: "string \<Rightarrow> string list" where
  "phoenix_metrics metrics_text =
     filter (\<lambda>line. startswith line ''phoenix_'' \<and> \<not> startswith line ''#'')
       (str_split (CHR 0x0A) metrics_text)"

text \<open>
  The \<^verbatim>\<open>try\<close> body of \<open>get_cardinality_metrics\<close> after the fetch: from the response
  text to the dictionary. \<open>now\<close> is the clock reading.
\<close>

definition cardinality_of_text :: "string \<Rightarrow> rat \<Rightarrow> py_error + cardinality_data" where
  "cardinality_of_text metrics_text now =
     (case collect_series (phoenix_metrics metrics_text) {} of
        Inl e \<Rightarrow> Inl e
      | Inr unique_series \<Rightarrow>
          Inr \<lparr>cardinality_count = int (card unique_series),
               total_metrics = int (length (phoenix_metrics metrics_text)),
               timestamp = now\<rparr>)"

subsection \<open>Signals, files and the log\<close>

text \<open>
  The two shapes of the \<open>reason\<close> string, with the values that are formatted into it.
\<close>

datatype reason = Mode_change mode mode int | Cardinality_update int int

record signal_state =
  previous_mode :: mode
  transition_timestamp :: rat
  transition_duration_seconds :: int
  stability_period_seconds :: int
  mode_changes_total :: int

record cardinality_analysis =
  total_phoenix_metrics :: int
  unique_time_series :: int
  reduction_potential :: rat

record control_signal =
  mode :: mode
  last_updated :: rat
  reason :: reason
  ts_count :: int
  config_version :: int
  correlation_id :: int
  optimization_level :: int
  signal_thresholds :: thresholds
  state :: signal_state
  observer_metadata :: cardinality_analysis

text \<open>
  A file holds the YAML rendering of a signal or some other text. \<open>open\<close> raises on
  the paths listed in the faults of the moment.
\<close>

datatype file_content = Yaml control_signal | Text string

type_synonym files = "string \<Rightarrow> file_content option"

record io_faults =
  unreadable :: "string set"
  unwritable :: "string set"

definition read_file :: "io_faults \<Rightarrow> files \<Rightarrow> string \<Rightarrow> py_error + file_content" where
  "read_file faults fs path =
     (case fs path of
        None \<Rightarrow> Inl OSError
      | Some content \<Rightarrow> if path \<in> unreadable faults then Inl OSError else Inr content)"

definition write_file :: "io_faults \<Rightarrow> files \<Rightarrow> string \<Rightarrow> file_content \<Rightarrow> py_error + files" where
  "write_file faults fs path content =
     (if path \<in> unwritable faults then Inl OSError else Inr (fs(path \<mapsto> content)))"

datatype status = LOW | MEDIUM | HIGH

text \<open>One constructor for each \<open>print\<close> of the observer.\<close>

datatype log_line =
    Log_fetch_error py_error
  | Log_signal_written mode int int
  | Log_write_error py_error
  | Log_starting string string nat thresholds
  | Log_iteration nat
  | Log_current_cardinality int int
  | Log_generating mode mode int reason
  | Log_write_success
  | Log_write_failed
  | Log_no_mode_change mode
  | Log_status status mode int
  | Log_stopping
  | Log_interrupted

subsection \<open>The methods of the observer\<close>

text \<open>
  \<open>response\<close> is what \<open>requests.get\<close> and \<open>raise_for_status\<close> deliver: the text, or
  the exception.
\<close>

definition get_cardinality_metrics ::
  "observer \<Rightarrow> py_error + string \<Rightarrow> rat \<Rightarrow> cardinality_data option \<times> log_line list" where
  "get_cardinality_metrics self response now =
     (case response of
        Inl e \<Rightarrow> (None, [Log_fetch_error e])
      | Inr metrics_text \<Rightarrow>
          (case cardinality_of_text metrics_text now of
             Inl e \<Rightarrow> (None, [Log_fetch_error e])
           | Inr d \<Rightarrow> (Some d, [])))"

definition generate_control_signal ::
  "observer \<Rightarrow> cardinality_data \<Rightarrow> rat \<Rightarrow> control_signal option \<times> observer" where
  "generate_control_signal self cardinality_data now =
     (let count = cardinality_count cardinality_data;
          new_mode = fst (determine_optimization_mode self count);
          level = snd (determine_optimization_mode self count);
          cardinality_change = \<bar>count - last_cardinality_count self\<bar>;
          significant_change = (cardinality_change > 50)
      in if new_mode \<noteq> current_mode self \<or> significant_change then
           (let self1 = (if new_mode \<noteq> current_mode self
                         then self\<lparr>mode_change_count := mode_change_count self + 1\<rparr>
                         else self);
                signal =
                  \<lparr>mode = new_mode,
                   last_updated = now,
                   reason = (if new_mode \<noteq> current_mode self
                             then Mode_change (current_mode self) new_mode count
                             else Cardinality_update count cardinality_change),
                   ts_count = count,
                   config_version = py_int now,
                   correlation_id = py_int now,
                   optimization_level = level,
                   signal_thresholds = thresholds self,
                   state =
                     \<lparr>previous_mode = current_mode self,
                      transition_timestamp = now,
                      transition_duration_seconds = 0,
                      stability_period_seconds = 300,
                      mode_changes_total = mode_change_count self1\<rparr>,
                   observer_metadata =
                     \<lparr>total_phoenix_metrics = total_metrics cardinality_data,
                      unique_time_series = count,
                      reduction_potential = max 0 (of_int count - moderate (thresholds self))\<rparr>\<rparr>
            in (Some signal, self1\<lparr>current_mode := new_mode, last_cardinality_count := count\<rparr>))
         else (None, self))"

text \<open>
  \<open>write_control_signal\<close>: one \<^verbatim>\<open>try\<close> around the backup and the write, so the first
  exception of either ends the method with \<open>False\<close>.
\<close>

definition write_control_signal ::
  "observer \<Rightarrow> io_faults \<Rightarrow> files \<Rightarrow> control_signal \<Rightarrow> bool \<times> files \<times> log_line list" where
  "write_control_signal self faults fs signal =
     (let backup =
            (if fs (control_file_path self) \<noteq> None then
               (let backup_path = control_file_path self @ ''.backup''
                in case read_file faults fs (control_file_path self) of
                     Inl e \<Rightarrow> Inl e
                   | Inr content \<Rightarrow> write_file faults fs backup_path content)
             else Inr fs)
      in case backup of
           Inl e \<Rightarrow> (False, fs, [Log_write_error e])
         | Inr fs1 \<Rightarrow>
             (case write_file faults fs1 (control_file_path self) (Yaml signal) of
                Inl e \<Rightarrow> (False, fs1, [Log_write_error e])
              | Inr fs2 \<Rightarrow>
                  (True, fs2,
                   [Log_signal_written (mode signal) (ts_count signal)
                      (optimization_level signal)])))"

subsection \<open>The loop\<close>

text \<open>
  What the world supplies to one pass of the \<^verbatim>\<open>while\<close> loop: the result of the
  fetch, the clock, and the paths on which \<open>open\<close> fails during that pass.
\<close>

record cycle_input =
  response :: "py_error + string"
  clock :: rat
  faults :: io_faults

text \<open>
  The threshold analysis that ends a pass: the classifier is called once more and the
  count is compared with the thresholds for the status line.
\<close>

definition threshold_analysis :: "observer \<Rightarrow> int \<Rightarrow> log_line" where
  "threshold_analysis self count =
     (let m = fst (determine_optimization_mode self count);
          opt_level = snd (determine_optimization_mode self count);
          status =
            (if of_int count \<le> moderate (thresholds self) then LOW
             else if of_int count \<le> adaptive (thresholds self) then MEDIUM
             else HIGH)
      in Log_status status m opt_level)"

text \<open>
  One pass of the loop body of \<open>run_observer\<close>. The first line of the signal report
  prints \<open>self.current_mode\<close> after the generator has already assigned it.
\<close>

definition observer_cycle ::
  "observer \<Rightarrow> files \<Rightarrow> nat \<Rightarrow> cycle_input \<Rightarrow> observer \<times> files \<times> log_line list" where
  "observer_cycle self fs iteration inp =
     (case get_cardinality_metrics self (response inp) (clock inp) of
        (None, log1) \<Rightarrow> (self, fs, Log_iteration iteration # log1)
      | (Some d, log1) \<Rightarrow>
          (let head = Log_iteration iteration # log1
                 @ [Log_current_cardinality (cardinality_count d) (total_metrics d)]
           in case generate_control_signal self d (clock inp) of
                (Some signal, self1) \<Rightarrow>
                  (case write_control_signal self1 (faults inp) fs signal of
                     (success, fs1, log2) \<Rightarrow>
                       (self1, fs1,
                        head
                        @ [Log_generating (current_mode self1) (mode signal)
                             (optimization_level signal) (reason signal)]
                        @ log2
                        @ [if success then Log_write_success else Log_write_failed]
                        @ [threshold_analysis self1 (cardinality_count d)]))
              | (None, self1) \<Rightarrow>
                  (self1, fs,
                   head @ [Log_no_mode_change (current_mode self1)]
                     @ [threshold_analysis self1 (cardinality_count d)])))"

text \<open>
  The loop runs while \<open>self.running\<close>, which nothing inside it clears: it ends only
  when the process is interrupted. The list holds the inputs of the passes that begin
  before the interrupt; the result carries the number of passes made.
\<close>

fun observer_loop ::
  "observer \<Rightarrow> files \<Rightarrow> nat \<Rightarrow> cycle_input list \<Rightarrow> observer \<times> files \<times> nat \<times> log_line list" where
  "observer_loop self fs iteration [] = (self, fs, iteration, [])"
| "observer_loop self fs iteration (inp # inps) =
     (case observer_cycle self fs (iteration + 1) inp of
        (self1, fs1, log1) \<Rightarrow>
          (case observer_loop self1 fs1 (iteration + 1) inps of
             (self2, fs2, n, log2) \<Rightarrow> (self2, fs2, n, log1 @ log2)))"

definition run_observer ::
  "observer \<Rightarrow> nat \<Rightarrow> files \<Rightarrow> cycle_input list \<Rightarrow> observer \<times> files \<times> nat \<times> log_line list" where
  "run_observer self check_interval fs inps =
     (case observer_loop (self\<lparr>running := True\<rparr>) fs 0 inps of
        (self1, fs1, n, log1) \<Rightarrow>
          (self1, fs1, n,
           Log_starting (main_collector_url self) (control_file_path self) check_interval
             (thresholds self) # log1))"

definition stop :: "observer \<Rightarrow> observer" where
  "stop self = self\<lparr>running := False\<rparr>"

subsection \<open>Startup\<close>

text \<open>
  The parsed command line. \<open>argparse\<close> itself ends the process with status 2 on a
  malformed flag; \<open>main\<close> starts from the parsed values. The interval is a natural
  number: it is only passed to \<open>time.sleep\<close>, which is not modelled.
\<close>

record args =
  collector_url :: string
  control_file :: string
  interval :: nat
  moderate_threshold :: rat
  adaptive_threshold :: rat
  ultra_threshold :: rat

record main_result =
  exit_status :: int
  iterations :: nat
  final_observer :: observer
  final_files :: files
  printed :: "log_line list"

text \<open>
  \<open>main\<close> of the legacy script. It builds the thresholds from the three flags and
  the observer from them, and runs the loop; nothing compares the thresholds. The
  interrupt that ends the loop is caught, so the process ends with status 0.
\<close>

definition main :: "args \<Rightarrow> files \<Rightarrow> cycle_input list \<Rightarrow> main_result" where
  "main a fs inps =
     (let ths = \<lparr>moderate = moderate_threshold a,
                 adaptive = adaptive_threshold a,
                 ultra = ultra_threshold a\<rparr>;
          observer = init_observer (collector_url a) (control_file a) (Some ths)
      in case run_observer observer (interval a) fs inps of
           (self1, fs1, n, log1) \<Rightarrow>
             \<lparr>exit_status = 0,
              iterations = n,
              final_observer = stop self1,
              final_files = fs1,
              printed = log1 @ [Log_stopping]\<rparr>)"


subsection \<open>Sequences of generator calls\<close>

text \<open>
  The generator called on one sample after the other, each call starting from the state
  the previous one left.
\<close>

fun generate_all ::
  "observer \<Rightarrow> (cardinality_data \<times> rat) list \<Rightarrow> control_signal option list \<times> observer" where
  "generate_all self [] = ([], self)"
| "generate_all self ((d, now) # rest) =
     (case generate_control_signal self d now of
        (r, self1) \<Rightarrow>
          (case generate_all self1 rest of
             (rs, self2) \<Rightarrow> (r # rs, self2)))"

text \<open>The number of places in a sequence of modes where the mode changes.\<close>

fun mode_transitions :: "mode \<Rightarrow> mode list \<Rightarrow> int" where
  "mode_transitions m [] = 0"
| "mode_transitions m (m' # ms) = (if m' \<noteq> m then 1 else 0) + mode_transitions m' ms"

definition classified_mode :: "observer \<Rightarrow> cardinality_data \<times> rat \<Rightarrow> mode" where
  "classified_mode self s = fst (determine_optimization_mode self (cardinality_count (fst s)))"

subsection \<open>Example inputs\<close>

text \<open>A response with one series, and passes of the loop that receive it.\<close>

definition one_series :: string where
  "one_series = ''phoenix_up 1''"

definition no_faults :: io_faults where
  "no_faults = \<lparr>unreadable = {}, unwritable = {}\<rparr>"

definition clean_pass :: cycle_input where
  "clean_pass = \<lparr>response = Inr one_series, clock = 1700000030, faults = no_faults\<rparr>"

text \<open>
  Thresholds 0 < 1 < 2, under which one series is already the adaptive tier, and a pass
  during which the control file cannot be opened for writing.
\<close>

definition low_args :: args where
  "low_args =
     \<lparr>collector_url = ''http://localhost:8888/metrics'',
      control_file = ''opt_mode.yaml'',
      interval = 30,
      moderate_threshold = 0,
      adaptive_threshold = 1,
      ultra_threshold = 2\<rparr>"

definition failing_pass :: cycle_input where
  "failing_pass =
     \<lparr>response = Inr one_series, clock = 1700000000,
      faults = \<lparr>unreadable = {}, unwritable = {''opt_mode.yaml''}\<rparr>\<rparr>"



definition earlier_files :: files where
  "earlier_files = Map.empty(''configs/control_signals/opt_mode.yaml'' \<mapsto> Text ''mode: moderate'')"


definition sample :: "int \<Rightarrow> cardinality_data" where
  "sample n = \<lparr>cardinality_count = n, total_metrics = n, timestamp = 0\<rparr>"

subsection \<open>Facts about the classifier\<close>

lemma py_int_mono: "x \<le> y \<Longrightarrow> py_int x \<le> py_int y"
proof -
  assume xy: "x \<le> y"
  show ?thesis
  proof (cases "0 \<le> x")
    case True
    with xy show ?thesis by (simp add: py_int_def floor_mono)
  next
    case False
    note neg = this
    show ?thesis
    proof (cases "0 \<le> y")
      case True
      have "\<lceil>x\<rceil> \<le> 0" using neg by (simp add: ceiling_le_zero)
      moreover have "0 \<le> \<lfloor>y\<rfloor>" using True by simp
      ultimately have "\<lceil>x\<rceil> \<le> \<lfloor>y\<rfloor>" by linarith
      then show ?thesis using neg True by (simp add: py_int_def)
    next
      case False
      with neg xy show ?thesis by (simp add: py_int_def ceiling_mono)
    qed
  qed
qed

lemma default_observer_thresholds [simp]:
  "thresholds default_observer = default_thresholds"
  by (simp add: default_observer_def init_observer_def)

lemma default_thresholds_fields [simp]:
  "moderate default_thresholds = 300"
  "adaptive default_thresholds = 375"
  "ultra default_thresholds = 450"
  by (simp_all add: default_thresholds_def)

lemma determine_moderate_tier:
  "of_int c \<le> moderate (thresholds self) \<Longrightarrow>
   determine_optimization_mode self c = (Moderate, 0)"
  by (simp add: determine_optimization_mode_def)

lemma determine_adaptive_tier:
  assumes "moderate (thresholds self) < of_int c"
    and "of_int c \<le> adaptive (thresholds self)"
  shows "determine_optimization_mode self c =
    (Adaptive, min 75 (max 26 (py_int (spec_adaptive_value (thresholds self) c))))"
  using assms
  by (simp add: determine_optimization_mode_def spec_adaptive_value_def Let_def)

lemma determine_ultra_tier:
  assumes "moderate (thresholds self) < of_int c"
    and "adaptive (thresholds self) < of_int c"
  shows "determine_optimization_mode self c =
    (if ultra (thresholds self) - adaptive (thresholds self)
          \<le> of_int c - adaptive (thresholds self)
     then (Ultra, 100)
     else (Ultra, min 100 (max 76 (py_int (76 +
       ((of_int c - adaptive (thresholds self))
          / (ultra (thresholds self) - adaptive (thresholds self))) * 24)))))"
  using assms
  by (simp add: determine_optimization_mode_def Let_def)

lemma level_bounds:
  "0 \<le> snd (determine_optimization_mode self c)"
  "snd (determine_optimization_mode self c) \<le> 100"
  by (simp_all add: determine_optimization_mode_def Let_def le_max_iff_disj min_le_iff_disj)

lemma adaptive_tier_level_range:
  assumes "moderate (thresholds self) < of_int c"
    and "of_int c \<le> adaptive (thresholds self)"
  shows "26 \<le> snd (determine_optimization_mode self c)"
    and "snd (determine_optimization_mode self c) \<le> 75"
  using assms by (simp_all add: determine_adaptive_tier)

lemma ultra_tier_level_range:
  assumes "moderate (thresholds self) < of_int c"
    and "adaptive (thresholds self) < of_int c"
  shows "76 \<le> snd (determine_optimization_mode self c)"
proof (cases "ultra (thresholds self) - adaptive (thresholds self)
          \<le> of_int c - adaptive (thresholds self)")
  case True
  then show ?thesis using assms by (simp add: determine_ultra_tier)
next
  case False
  then show ?thesis using assms
    by (simp add: determine_ultra_tier le_max_iff_disj)
qed


lemma spec_adaptive_value_mono:
  assumes "moderate t < adaptive t" and "c1 \<le> c2"
  shows "spec_adaptive_value t c1 \<le> spec_adaptive_value t c2"
proof -
  let ?r = "adaptive t - moderate t"
  have r: "0 < ?r" using assms(1) by simp
  have "(of_int c1 - moderate t) \<le> (of_int c2 - moderate t)"
    using assms(2) by simp
  then have "(of_int c1 - moderate t) / ?r \<le> (of_int c2 - moderate t) / ?r"
    using r by (simp add: divide_right_mono)
  then have "(of_int c1 - moderate t) / ?r * 49 \<le> (of_int c2 - moderate t) / ?r * 49"
    by (intro mult_right_mono) simp_all
  then show ?thesis unfolding spec_adaptive_value_def by linarith
qed

lemma level_mono:
  assumes c12: "c1 \<le> c2"
  shows "snd (determine_optimization_mode self c1) \<le> snd (determine_optimization_mode self c2)"
proof -
  let ?t = "thresholds self"
  have rc: "(of_int c1 :: rat) \<le> of_int c2" using c12 by simp
  consider (mod) "of_int c1 \<le> moderate ?t"
    | (ada) "moderate ?t < of_int c1" "of_int c1 \<le> adaptive ?t"
    | (ult) "moderate ?t < of_int c1" "adaptive ?t < of_int c1"
    by linarith
  then show ?thesis
  proof cases
    case mod
    then show ?thesis
      by (simp add: determine_moderate_tier level_bounds)
  next
    case ada
    have m2: "moderate ?t < of_int c2" using ada(1) rc by linarith
    show ?thesis
    proof (cases "of_int c2 \<le> adaptive ?t")
      case True
      have ord: "moderate ?t < adaptive ?t" using ada by linarith
      have "py_int (spec_adaptive_value ?t c1) \<le> py_int (spec_adaptive_value ?t c2)"
        by (intro py_int_mono spec_adaptive_value_mono ord c12)
      then show ?thesis
        using ada m2 True by (simp add: determine_adaptive_tier)
    next
      case False
      then have a2: "adaptive ?t < of_int c2" by simp
      have "snd (determine_optimization_mode self c1) \<le> 75"
        using ada by (rule adaptive_tier_level_range)
      moreover have "76 \<le> snd (determine_optimization_mode self c2)"
        using m2 a2 by (rule ultra_tier_level_range)
      ultimately show ?thesis by linarith
    qed
  next
    case ult
    have m2: "moderate ?t < of_int c2" using ult(1) rc by linarith
    have a2: "adaptive ?t < of_int c2" using ult(2) rc by linarith
    let ?mx = "ultra ?t - adaptive ?t"
    let ?e1 = "of_int c1 - adaptive ?t"
    let ?e2 = "of_int c2 - adaptive ?t"
    have e12: "?e1 \<le> ?e2" using rc by simp
    show ?thesis
    proof (cases "?mx \<le> ?e2")
      case True
      then have "snd (determine_optimization_mode self c2) = 100"
        using m2 a2 by (simp add: determine_ultra_tier)
      then show ?thesis by (simp add: level_bounds)
    next
      case False
      then have lt2: "?e2 < ?mx" by simp
      then have lt1: "?e1 < ?mx" using e12 by linarith
      have mx: "0 < ?mx" using lt1 ult(2) by linarith
      have "?e1 / ?mx \<le> ?e2 / ?mx" using e12 mx by (simp add: divide_right_mono)
      then have "?e1 / ?mx * 24 \<le> ?e2 / ?mx * 24" by (intro mult_right_mono) simp_all
      then have "76 + ?e1 / ?mx * 24 \<le> 76 + ?e2 / ?mx * 24" by linarith
      then have "py_int (76 + ?e1 / ?mx * 24) \<le> py_int (76 + ?e2 / ?mx * 24)"
        by (rule py_int_mono)
      then have "min 100 (max 76 (py_int (76 + ?e1 / ?mx * 24)))
          \<le> min 100 (max 76 (py_int (76 + ?e2 / ?mx * 24)))"
        by (intro min.mono max.mono order_refl)
      moreover have "\<not> ?mx \<le> ?e1" "\<not> ?mx \<le> ?e2" using lt1 lt2 by simp_all
      ultimately show ?thesis
        using ult m2 a2 by (simp only: determine_ultra_tier if_False snd_conv)
    qed
  qed
qed

lemma mode_of_count:
  "fst (determine_optimization_mode self c) =
     (if of_int c \<le> moderate (thresholds self) then Moderate
      else if of_int c \<le> adaptive (thresholds self) then Adaptive
      else Ultra)"
  by (simp add: determine_optimization_mode_def Let_def)

subsection \<open>Facts about the generator\<close>

lemma generate_emits_iff:
  "fst (generate_control_signal self d now) \<noteq> None \<longleftrightarrow>
     (fst (determine_optimization_mode self (cardinality_count d)) \<noteq> current_mode self
      \<or> \<bar>cardinality_count d - last_cardinality_count self\<bar> > 50)"
  by (simp add: generate_control_signal_def Let_def)

lemma generate_silent_state:
  "fst (generate_control_signal self d now) = None \<Longrightarrow>
   snd (generate_control_signal self d now) = self"
  by (simp add: generate_control_signal_def Let_def split: if_splits)

lemma generate_thresholds [simp]:
  "thresholds (snd (generate_control_signal self d now)) = thresholds self"
  by (simp add: generate_control_signal_def Let_def)

lemma determine_cong:
  "thresholds a = thresholds b \<Longrightarrow>
   determine_optimization_mode a c = determine_optimization_mode b c"
  by (simp add: determine_optimization_mode_def)

lemma generate_current_mode:
  "current_mode (snd (generate_control_signal self d now)) =
   fst (determine_optimization_mode self (cardinality_count d))"
  by (simp add: generate_control_signal_def Let_def)

lemma generate_last_count:
  "\<bar>cardinality_count d - last_cardinality_count (snd (generate_control_signal self d now))\<bar> \<le> 50"
  by (simp add: generate_control_signal_def Let_def)

lemma generate_counter:
  "mode_change_count (snd (generate_control_signal self d now)) =
   mode_change_count self +
     (if fst (determine_optimization_mode self (cardinality_count d)) \<noteq> current_mode self
      then 1 else 0)"
  by (simp add: generate_control_signal_def Let_def)

lemma generate_signal_counter:
  "fst (generate_control_signal self d now) = Some sig \<Longrightarrow>
   mode_changes_total (state sig) = mode_change_count (snd (generate_control_signal self d now))"
  by (auto simp add: generate_control_signal_def Let_def split: if_splits)

lemma generate_signal_fields:
  "fst (generate_control_signal self d now) = Some sig \<Longrightarrow>
   mode sig = current_mode (snd (generate_control_signal self d now))
   \<and> ts_count sig = last_cardinality_count (snd (generate_control_signal self d now))
   \<and> ts_count sig = cardinality_count d"
  by (auto simp add: generate_control_signal_def Let_def split: if_splits)

lemma cycle_silent:
  fixes inp :: cycle_input
  assumes "get_cardinality_metrics self (response inp) (clock inp) = (Some d, lg)"
    and "fst (generate_control_signal self d (clock inp)) = None"
  shows "fst (observer_cycle self fs i inp) = self
     \<and> fst (snd (observer_cycle self fs i inp)) = fs"
proof -
  obtain r self1 where g: "generate_control_signal self d (clock inp) = (r, self1)"
    by (cases "generate_control_signal self d (clock inp)")
  have r: "r = None" using assms(2) g by simp
  have "self1 = self" using generate_silent_state [OF assms(2)] g by simp
  then show ?thesis using assms(1) g r
    by (simp add: observer_cycle_def Let_def)
qed

lemma generate_all_Cons:
  "generate_all self ((d, now) # rest) =
     (fst (generate_control_signal self d now)
        # fst (generate_all (snd (generate_control_signal self d now)) rest),
      snd (generate_all (snd (generate_control_signal self d now)) rest))"
  by (simp split: prod.splits)

lemma generate_all_thresholds [simp]:
  "thresholds (snd (generate_all self ds)) = thresholds self"
proof (induction ds arbitrary: self)
  case Nil
  show ?case by simp
next
  case (Cons a ds)
  obtain d now where a: "a = (d, now)" by (cases a)
  obtain r self1 where g: "generate_control_signal self d now = (r, self1)"
    by (cases "generate_control_signal self d now")
  have t: "thresholds self1 = thresholds self"
    using generate_thresholds [of self d now] g by simp
  show ?case using Cons.IH [of self1] a g t
    by (simp add: generate_all_Cons del: generate_all.simps)
qed

lemma classified_mode_cong:
  "thresholds a = thresholds b \<Longrightarrow> classified_mode a = classified_mode b"
  by (rule ext) (simp add: classified_mode_def determine_cong [of a b])

lemma generate_all_counter:
  "mode_change_count (snd (generate_all self ds)) =
   mode_change_count self
     + mode_transitions (current_mode self) (map (classified_mode self) ds)"
proof (induction ds arbitrary: self)
  case Nil
  show ?case by simp
next
  case (Cons a ds)
  obtain d now where a: "a = (d, now)" by (cases a)
  obtain r self1 where g: "generate_control_signal self d now = (r, self1)"
    by (cases "generate_control_signal self d now")
  have t: "classified_mode self1 = classified_mode self"
    using generate_thresholds [of self d now] g by (intro classified_mode_cong) simp
  have m: "current_mode self1 = classified_mode self a"
    using generate_current_mode [of self d now] g a by (simp add: classified_mode_def)
  have c: "mode_change_count self1 = mode_change_count self
      + (if classified_mode self a \<noteq> current_mode self then 1 else 0)"
    using generate_counter [of self d now] g a by (simp add: classified_mode_def)
  have "mode_change_count (snd (generate_all self (a # ds)))
      = mode_change_count (snd (generate_all self1 ds))"
    using a g by (simp add: generate_all_Cons del: generate_all.simps)
  also have "\<dots> = mode_change_count self1
      + mode_transitions (current_mode self1) (map (classified_mode self1) ds)"
    by (rule Cons.IH)
  finally show ?case using t m c by simp
qed

lemma generate_all_signals:
  "i < length ds \<Longrightarrow> fst (generate_all self ds) ! i = Some sig \<Longrightarrow>
   mode_changes_total (state sig) =
   mode_change_count self
     + mode_transitions (current_mode self) (map (classified_mode self) (take (Suc i) ds))"
proof (induction ds arbitrary: self i)
  case Nil
  then show ?case by simp
next
  case (Cons a ds)
  obtain d now where a: "a = (d, now)" by (cases a)
  obtain r self1 where g: "generate_control_signal self d now = (r, self1)"
    by (cases "generate_control_signal self d now")
  have t: "classified_mode self1 = classified_mode self"
    using generate_thresholds [of self d now] g by (intro classified_mode_cong) simp
  have m: "current_mode self1 = classified_mode self a"
    using generate_current_mode [of self d now] g a by (simp add: classified_mode_def)
  have c: "mode_change_count self1 = mode_change_count self
      + (if classified_mode self a \<noteq> current_mode self then 1 else 0)"
    using generate_counter [of self d now] g a by (simp add: classified_mode_def)
  have out: "fst (generate_all self (a # ds)) = r # fst (generate_all self1 ds)"
    using a g by (simp add: generate_all_Cons del: generate_all.simps)
  show ?case
  proof (cases i)
    case 0
    then have "r = Some sig" using Cons.prems(2) out by simp
    then have "mode_changes_total (state sig) = mode_change_count self1"
      using generate_signal_counter [of self d now sig] g by simp
    then show ?thesis using 0 c by simp
  next
    case (Suc j)
    then have j: "j < length ds" and s: "fst (generate_all self1 ds) ! j = Some sig"
      using Cons.prems out by simp_all
    have "mode_changes_total (state sig) = mode_change_count self1
      + mode_transitions (current_mode self1) (map (classified_mode self1) (take (Suc j) ds))"
      using j s by (rule Cons.IH)
    then show ?thesis using Suc t m c by simp
  qed
qed

subsection \<open>Facts about the store\<close>


lemma write_target_fails:
  assumes "control_file_path self \<in> unwritable flt"
  shows "fst (write_control_signal self flt fs signal) = False"
    and "fst (snd (write_control_signal self flt fs signal)) (control_file_path self)
           = fs (control_file_path self)"
  using assms
  by (auto simp add: write_control_signal_def read_file_def write_file_def Let_def
      split: option.splits)


lemma write_fresh:
  assumes "fs (control_file_path self) = None"
    and "control_file_path self \<notin> unwritable flt"
  shows "write_control_signal self flt fs signal =
     (True, fs(control_file_path self \<mapsto> Yaml signal),
      [Log_signal_written (mode signal) (ts_count signal) (optimization_level signal)])"
  using assms
  by (simp add: write_control_signal_def read_file_def write_file_def Let_def)

subsection \<open>Facts about the loop\<close>

lemma generate_repeat_silent:
  assumes "cardinality_count d2 = cardinality_count d1"
  shows "fst (generate_control_signal (snd (generate_control_signal self d1 now1)) d2 now2) = None"
proof -
  let ?s1 = "snd (generate_control_signal self d1 now1)"
  have same: "determine_optimization_mode ?s1 (cardinality_count d2)
      = determine_optimization_mode self (cardinality_count d1)"
    using assms by (simp add: determine_cong [of ?s1 self])
  have "fst (determine_optimization_mode ?s1 (cardinality_count d2)) = current_mode ?s1"
    by (simp only: same generate_current_mode)
  moreover have "\<not> \<bar>cardinality_count d2 - last_cardinality_count ?s1\<bar> > 50"
    using generate_last_count [of d1 self now1] assms by simp
  ultimately have "\<not> fst (generate_control_signal ?s1 d2 now2) \<noteq> None"
    by (simp only: generate_emits_iff) simp
  then show ?thesis by simp
qed

lemma get_cardinality_metrics_again:
  assumes "get_cardinality_metrics self r t = (Some d, lg)"
  shows "get_cardinality_metrics self' r t' = (Some (d\<lparr>timestamp := t'\<rparr>), lg)"
  using assms
  by (auto simp add: get_cardinality_metrics_def cardinality_of_text_def
      split: sum.splits)

lemma cycle_emitting:
  fixes inp :: cycle_input
  assumes "get_cardinality_metrics self (response inp) (clock inp) = (Some d, lg)"
    and "generate_control_signal self d (clock inp) = (Some sig, self1)"
  shows "fst (observer_cycle self fs i inp) = self1"
    and "fst (snd (observer_cycle self fs i inp))
           = fst (snd (write_control_signal self1 (faults inp) fs sig))"
    and "\<not> fst (write_control_signal self1 (faults inp) fs sig) \<Longrightarrow>
           Log_write_failed \<in> set (snd (snd (observer_cycle self fs i inp)))"
  using assms
  by (auto simp add: observer_cycle_def Let_def split: prod.splits)

lemma cycle_silent_log:
  fixes inp :: cycle_input
  assumes "get_cardinality_metrics self (response inp) (clock inp) = (Some d, lg)"
    and "fst (generate_control_signal self d (clock inp)) = None"
  shows "Log_no_mode_change (current_mode self) \<in> set (snd (snd (observer_cycle self fs i inp)))"
proof -
  obtain r self1 where g: "generate_control_signal self d (clock inp) = (r, self1)"
    by (cases "generate_control_signal self d (clock inp)")
  have r: "r = None" using assms(2) g by simp
  have "self1 = self" using generate_silent_state [OF assms(2)] g by simp
  then show ?thesis using assms(1) g r
    by (simp add: observer_cycle_def Let_def)
qed

lemma observer_loop_iterations:
  "fst (snd (snd (observer_loop self fs i inps))) = i + length inps"
proof (induction inps arbitrary: self fs i)
  case Nil
  show ?case by simp
next
  case (Cons inp inps)
  obtain self1 fs1 log1 where c: "observer_cycle self fs (i + 1) inp = (self1, fs1, log1)"
    by (cases "observer_cycle self fs (i + 1) inp")
  obtain self2 fs2 n log2 where
    l: "observer_loop self1 fs1 (i + 1) inps = (self2, fs2, n, log2)"
    by (cases "observer_loop self1 fs1 (i + 1) inps")
  have "n = i + 1 + length inps"
    using Cons.IH [of self1 fs1 "i + 1"] l by simp
  then show ?case using c l by simp
qed



subsection \<open>Facts about the estimator\<close>

lemma str_split_not_Nil [simp]: "str_split sep s \<noteq> []"
  by (induction s) (auto split: list.splits)

lemma str_split_Cons:
  "str_split sep (x # xs) =
     (if x = sep then [] # str_split sep xs
      else (x # hd (str_split sep xs)) # tl (str_split sep xs))"
  by (cases "str_split sep xs") simp_all

lemma hd_str_split: "hd (str_split sep s) = takeWhile (\<lambda>c. c \<noteq> sep) s"
  by (induction s) (simp_all add: str_split_Cons del: str_split.simps(2))

lemma tl_str_split:
  "sep \<in> set s \<Longrightarrow>
   tl (str_split sep s) = str_split sep (tl (dropWhile (\<lambda>c. c \<noteq> sep) s))"
  by (induction s) (auto simp add: str_split_Cons simp del: str_split.simps(2))

lemma tl_str_split_absent: "sep \<notin> set s \<Longrightarrow> tl (str_split sep s) = []"
  by (induction s) (auto simp add: str_split_Cons simp del: str_split.simps(2))

lemma getitem_0: "getitem (str_split sep s) 0 = Inr (takeWhile (\<lambda>c. c \<noteq> sep) s)"
proof -
  have "0 < length (str_split sep s)" by simp
  moreover have "str_split sep s ! 0 = hd (str_split sep s)"
    by (simp add: hd_conv_nth)
  ultimately show ?thesis by (simp add: getitem_def hd_str_split)
qed

lemma getitem_1:
  assumes "sep \<in> set s"
  shows "getitem (str_split sep s) (Suc 0)
     = Inr (takeWhile (\<lambda>c. c \<noteq> sep) (tl (dropWhile (\<lambda>c. c \<noteq> sep) s)))"
proof -
  let ?r = "tl (dropWhile (\<lambda>c. c \<noteq> sep) s)"
  have t: "tl (str_split sep s) = str_split sep ?r" using assms by (rule tl_str_split)
  obtain a as where c: "str_split sep s = a # as"
    by (cases "str_split sep s") simp_all
  then have as: "as = str_split sep ?r" using t by simp
  then have "as \<noteq> []" by simp
  then have "Suc 0 < length (str_split sep s)" using c by (cases as) simp_all
  moreover have "str_split sep s ! Suc 0 = hd (str_split sep ?r)"
    using c as by (simp add: hd_conv_nth)
  ultimately show ?thesis by (simp add: getitem_def hd_str_split)
qed

lemma takeWhile_takeWhile:
  "takeWhile P (takeWhile Q xs) = takeWhile (\<lambda>x. Q x \<and> P x) xs"
  by (induction xs) simp_all

lemma series_key_eq: "series_key l = Inr (key_of_line l)"
  by (simp add: series_key_def key_of_line_def getitem_0 getitem_1 takeWhile_takeWhile)

lemma collect_series_eq:
  "collect_series ls acc = Inr (acc \<union> key_of_line ` set ls)"
  by (induction ls arbitrary: acc) (simp_all add: series_key_eq)

lemma cardinality_of_text_eq:
  "cardinality_of_text text now =
     Inr \<lparr>cardinality_count = int (card (key_of_line ` set (phoenix_metrics text))),
          total_metrics = int (length (phoenix_metrics text)),
          timestamp = now\<rparr>"
  by (simp add: cardinality_of_text_def collect_series_eq)

lemma phoenix_line_not_comment:
  "startswith l ''phoenix_'' \<Longrightarrow> \<not> startswith l ''#''"
  by (cases l) (auto simp add: startswith_def)

lemma key_of_unclosed_line:
  assumes "CHR ''{'' \<in> set l" and "CHR ''}'' \<notin> set l"
  shows "key_of_line l =
     takeWhile (\<lambda>c. c \<noteq> CHR ''{'') l @ ''#''
       @ takeWhile (\<lambda>c. c \<noteq> CHR ''{'') (tl (dropWhile (\<lambda>c. c \<noteq> CHR ''{'') l))"
proof -
  let ?r = "tl (dropWhile (\<lambda>c. c \<noteq> CHR ''{'') l)"
  have "c \<in> set l" if "c \<in> set ?r" for c
  proof -
    have "c \<in> set (dropWhile (\<lambda>c. c \<noteq> CHR ''{'') l)"
      using that by (cases "dropWhile (\<lambda>c. c \<noteq> CHR ''{'') l") simp_all
    then show ?thesis by (rule set_dropWhileD)
  qed
  then have "\<forall>c\<in>set ?r. c \<noteq> CHR ''}''" using assms(2) by auto
  then have "takeWhile (\<lambda>c. c \<noteq> CHR ''{'' \<and> c \<noteq> CHR ''}'') ?r
      = takeWhile (\<lambda>c. c \<noteq> CHR ''{'') ?r"
    by (intro takeWhile_cong) auto
  then show ?thesis using assms(1) by (simp add: key_of_line_def)
qed

section \<open>The claims\<close>

subsection \<open>C1\<close>




subsection \<open>C2\<close>

text \<open>
  C2: the generator emits a signal exactly when the classified mode differs from the
  current mode or the count has moved by more than 50 from the last count. When it
  emits nothing it returns the observer as it was, and the pass of the loop that called
  it returns the observer and the files as they were.
\<close>

theorem emission_condition:
  "(fst (generate_control_signal self d now) \<noteq> None \<longleftrightarrow>
      (fst (determine_optimization_mode self (cardinality_count d)) \<noteq> current_mode self
       \<or> \<bar>cardinality_count d - last_cardinality_count self\<bar> > 50))
   \<and> (fst (generate_control_signal self d now) = None \<longrightarrow>
        snd (generate_control_signal self d now) = self
        \<and> (\<forall>fs i (inp :: cycle_input) lg.
              get_cardinality_metrics self (response inp) (clock inp) = (Some d, lg)
              \<and> clock inp = now \<longrightarrow>
              fst (observer_cycle self fs i inp) = self
              \<and> fst (snd (observer_cycle self fs i inp)) = fs))"
proof (intro conjI impI allI)
  show "fst (generate_control_signal self d now) \<noteq> None \<longleftrightarrow>
      (fst (determine_optimization_mode self (cardinality_count d)) \<noteq> current_mode self
       \<or> \<bar>cardinality_count d - last_cardinality_count self\<bar> > 50)"
    by (rule generate_emits_iff)
next
  assume "fst (generate_control_signal self d now) = None"
  then show "snd (generate_control_signal self d now) = self"
    by (rule generate_silent_state)
next
  fix fs i lg
  fix inp :: cycle_input
  assume n: "fst (generate_control_signal self d now) = None"
    and h: "get_cardinality_metrics self (response inp) (clock inp) = (Some d, lg)
              \<and> clock inp = now"
  from h n have "fst (generate_control_signal self d (clock inp)) = None" by simp
  with h show "fst (observer_cycle self fs i inp) = self"
    using cycle_silent by blast
next
  fix fs i lg
  fix inp :: cycle_input
  assume n: "fst (generate_control_signal self d now) = None"
    and h: "get_cardinality_metrics self (response inp) (clock inp) = (Some d, lg)
              \<and> clock inp = now"
  from h n have "fst (generate_control_signal self d (clock inp)) = None" by simp
  with h show "fst (snd (observer_cycle self fs i inp)) = fs"
    using cycle_silent by blast
qed
theorem emission_condition_witness:
  "fst (generate_control_signal default_observer (sample 1) 1700000030) = None
   \<and> fst (generate_control_signal default_observer (sample 51) 1700000030) \<noteq> None
   \<and> get_cardinality_metrics default_observer (response clean_pass) (clock clean_pass)
        = (Some (sample 1\<lparr>timestamp := 1700000030\<rparr>), [])
   \<and> fst (observer_cycle default_observer earlier_files 1 clean_pass) = default_observer
   \<and> fst (snd (observer_cycle default_observer earlier_files 1 clean_pass)) = earlier_files"
proof -
  let ?d = "sample 1\<lparr>timestamp := 1700000030\<rparr>"
  have m: "get_cardinality_metrics default_observer (response clean_pass) (clock clean_pass)
        = (Some ?d, [])"
    by (simp add: get_cardinality_metrics_def cardinality_of_text_eq clean_pass_def
        one_series_def phoenix_metrics_def startswith_def key_of_line_def sample_def)
  have n: "fst (generate_control_signal default_observer ?d 1700000030) = None"
    by (simp add: generate_control_signal_def Let_def sample_def
        determine_optimization_mode_def default_observer_def init_observer_def)
  have n1: "fst (generate_control_signal default_observer (sample 1) 1700000030) = None"
    by (simp add: generate_control_signal_def Let_def sample_def
        determine_optimization_mode_def default_observer_def init_observer_def)
  have e: "fst (generate_control_signal default_observer (sample 51) 1700000030) \<noteq> None"
    using emission_condition [of default_observer "sample 51" 1700000030]
    by (simp add: sample_def default_observer_def init_observer_def)
  have c: "clock clean_pass = 1700000030" by (simp add: clean_pass_def)
  show ?thesis
    using emission_condition [of default_observer ?d 1700000030] m n n1 e c by simp
qed

subsection \<open>C3\<close>

text \<open>
  C3, as stated: when the write of an emitted signal fails, the current mode and the last
  count are not committed and the next pass emits again on the same sample. The code
  assigns both fields inside \<open>generate_control_signal\<close>, before the write is tried, and has
  no retry. Started with thresholds 0, 1, 2 and given the same one-series response in
  two passes, the first with a control file that cannot be written: the first pass
  leaves the mode adaptive and the last count 1, the second pass reports no change, and
  the control file is never written.
\<close>

theorem failed_write_retry_counterexample:
  "current_mode (final_observer (main low_args Map.empty [failing_pass])) = Adaptive
   \<and> last_cardinality_count (final_observer (main low_args Map.empty [failing_pass])) = 1
   \<and> final_files (main low_args Map.empty [failing_pass]) ''opt_mode.yaml'' = None
   \<and> final_files (main low_args Map.empty [failing_pass, clean_pass]) ''opt_mode.yaml'' = None
   \<and> printed (main low_args Map.empty [failing_pass, clean_pass]) =
       [Log_starting ''http://localhost:8888/metrics'' ''opt_mode.yaml'' 30
          \<lparr>moderate = 0, adaptive = 1, ultra = 2\<rparr>,
        Log_iteration 1, Log_current_cardinality 1 1,
        Log_generating Adaptive Adaptive 75 (Mode_change Moderate Adaptive 1),
        Log_write_error OSError, Log_write_failed, Log_status MEDIUM Adaptive 75,
        Log_iteration 2, Log_current_cardinality 1 1, Log_no_mode_change Adaptive,
        Log_status MEDIUM Adaptive 75, Log_stopping]"
  by (simp add: main_def run_observer_def observer_cycle_def stop_def Let_def
      low_args_def failing_pass_def clean_pass_def one_series_def no_faults_def
      init_observer_def get_cardinality_metrics_def cardinality_of_text_eq
      phoenix_metrics_def startswith_def key_of_line_def
      generate_control_signal_def determine_optimization_mode_def py_int_def
      write_control_signal_def write_file_def read_file_def threshold_analysis_def)

text \<open>
  C3, amended: when the write of an emitted signal fails, the pass logs the failure and
  the loop goes on to every later pass; the current mode and the last count are already
  those of the emitted signal; and a next pass that observes the same response emits
  nothing: it leaves the observer and the files as they are and reports no mode change.
\<close>

theorem failed_write_is_not_retried:
  fixes inp inp2 :: cycle_input
  assumes m: "get_cardinality_metrics self (response inp) (clock inp) = (Some d, lg)"
    and g: "generate_control_signal self d (clock inp) = (Some sig, self1)"
    and w: "\<not> fst (write_control_signal self1 (faults inp) fs sig)"
    and r: "response inp2 = response inp"
  shows "Log_write_failed \<in> set (snd (snd (observer_cycle self fs i inp)))
     \<and> fst (snd (snd (observer_loop self fs i (inp # inp2 # inps)))) = i + 2 + length inps
     \<and> current_mode (fst (observer_cycle self fs i inp)) = mode sig
     \<and> last_cardinality_count (fst (observer_cycle self fs i inp)) = ts_count sig
     \<and> fst (observer_cycle (fst (observer_cycle self fs i inp)) fs' i' inp2)
          = fst (observer_cycle self fs i inp)
     \<and> fst (snd (observer_cycle (fst (observer_cycle self fs i inp)) fs' i' inp2)) = fs'
     \<and> Log_no_mode_change (mode sig)
          \<in> set (snd (snd (observer_cycle (fst (observer_cycle self fs i inp)) fs' i' inp2)))"
proof -
  have s1: "fst (observer_cycle self fs i inp) = self1"
    using m g by (rule cycle_emitting)
  have lg: "Log_write_failed \<in> set (snd (snd (observer_cycle self fs i inp)))"
    using m g w by (rule cycle_emitting)
  have it: "fst (snd (snd (observer_loop self fs i (inp # inp2 # inps)))) = i + 2 + length inps"
    by (simp only: observer_loop_iterations) simp
  have sg: "fst (generate_control_signal self d (clock inp)) = Some sig"
    and sn: "snd (generate_control_signal self d (clock inp)) = self1"
    using g by simp_all
  have fields: "current_mode self1 = mode sig" "last_cardinality_count self1 = ts_count sig"
    using generate_signal_fields [OF sg] sn by simp_all
  let ?d2 = "d\<lparr>timestamp := clock inp2\<rparr>"
  have m2: "get_cardinality_metrics self1 (response inp2) (clock inp2) = (Some ?d2, lg)"
    using get_cardinality_metrics_again [OF m] r by simp
  have "fst (generate_control_signal (snd (generate_control_signal self d (clock inp)))
          ?d2 (clock inp2)) = None"
    by (rule generate_repeat_silent) simp
  then have n2: "fst (generate_control_signal self1 ?d2 (clock inp2)) = None"
    using sn by simp
  have "fst (observer_cycle self1 fs' i' inp2) = self1
     \<and> fst (snd (observer_cycle self1 fs' i' inp2)) = fs'"
    using m2 n2 by (rule cycle_silent)
  moreover have "Log_no_mode_change (current_mode self1)
      \<in> set (snd (snd (observer_cycle self1 fs' i' inp2)))"
    using m2 n2 by (rule cycle_silent_log)
  ultimately show ?thesis using s1 lg it fields by simp
qed
theorem failed_write_is_not_retried_witness:
  "get_cardinality_metrics (init_observer [] ''opt_mode.yaml''
         (Some \<lparr>moderate = 0, adaptive = 1, ultra = 2\<rparr>))
       (response failing_pass) (clock failing_pass)
     = (Some (sample 1\<lparr>timestamp := 1700000000\<rparr>), [])
   \<and> fst (generate_control_signal
        (init_observer [] ''opt_mode.yaml'' (Some \<lparr>moderate = 0, adaptive = 1, ultra = 2\<rparr>))
        (sample 1\<lparr>timestamp := 1700000000\<rparr>) (clock failing_pass)) \<noteq> None
   \<and> response clean_pass = response failing_pass
   \<and> Log_write_failed \<in> set (snd (snd (observer_cycle
        (init_observer [] ''opt_mode.yaml'' (Some \<lparr>moderate = 0, adaptive = 1, ultra = 2\<rparr>))
        Map.empty 1 failing_pass)))
   \<and> current_mode (fst (observer_cycle
        (init_observer [] ''opt_mode.yaml'' (Some \<lparr>moderate = 0, adaptive = 1, ultra = 2\<rparr>))
        Map.empty 1 failing_pass)) = Adaptive"
proof -
  let ?o = "init_observer [] ''opt_mode.yaml''
    (Some \<lparr>moderate = 0, adaptive = 1, ultra = 2\<rparr>)"
  let ?d = "sample 1\<lparr>timestamp := 1700000000\<rparr>"
  obtain sg self1 where g: "generate_control_signal ?o ?d (clock failing_pass) = (Some sg, self1)"
    and md: "mode sg = Adaptive"
    by (simp add: generate_control_signal_def Let_def sample_def init_observer_def
        determine_optimization_mode_def py_int_def)
  have m: "get_cardinality_metrics ?o (response failing_pass) (clock failing_pass) = (Some ?d, [])"
    by (simp add: get_cardinality_metrics_def cardinality_of_text_eq failing_pass_def
        one_series_def phoenix_metrics_def startswith_def key_of_line_def sample_def)
  have p: "control_file_path self1 = ''opt_mode.yaml''"
    using g by (auto simp add: generate_control_signal_def Let_def init_observer_def
        split: if_splits)
  have w: "\<not> fst (write_control_signal self1 (faults failing_pass) Map.empty sg)"
    using p by (simp add: write_control_signal_def write_file_def failing_pass_def)
  have r: "response clean_pass = response failing_pass"
    by (simp add: clean_pass_def failing_pass_def)
  show ?thesis
    using failed_write_is_not_retried [OF m g w r, of 1 "[]" Map.empty 2] m g r md
    by simp
qed

subsection \<open>C4\<close>

text \<open>
  C4: for thresholds with \<open>moderate < adaptive < ultra\<close> the level never decreases when the
  count grows, and the mode is moderate exactly for \<open>count \<le> moderate\<close>, adaptive exactly
  for \<open>moderate < count \<le> adaptive\<close>, and ultra exactly for \<open>count > adaptive\<close>.
\<close>

theorem classifier_monotone_with_exact_boundaries:
  assumes "moderate (thresholds self) < adaptive (thresholds self)"
    and "adaptive (thresholds self) < ultra (thresholds self)"
  shows "(\<forall>c1 c2. c1 \<le> c2 \<longrightarrow>
            snd (determine_optimization_mode self c1)
              \<le> snd (determine_optimization_mode self c2))
     \<and> (\<forall>c. (fst (determine_optimization_mode self c) = Moderate
                 \<longleftrightarrow> of_int c \<le> moderate (thresholds self))
            \<and> (fst (determine_optimization_mode self c) = Adaptive
                 \<longleftrightarrow> moderate (thresholds self) < of_int c
                      \<and> of_int c \<le> adaptive (thresholds self))
            \<and> (fst (determine_optimization_mode self c) = Ultra
                 \<longleftrightarrow> adaptive (thresholds self) < of_int c))"
proof (intro conjI allI impI)
  fix c1 c2 :: int
  assume "c1 \<le> c2"
  then show "snd (determine_optimization_mode self c1)
      \<le> snd (determine_optimization_mode self c2)"
    by (rule level_mono)
next
  fix c
  show "fst (determine_optimization_mode self c) = Moderate
      \<longleftrightarrow> of_int c \<le> moderate (thresholds self)"
    by (simp add: mode_of_count)
next
  fix c
  show "fst (determine_optimization_mode self c) = Adaptive
      \<longleftrightarrow> moderate (thresholds self) < of_int c \<and> of_int c \<le> adaptive (thresholds self)"
    by (auto simp add: mode_of_count)
next
  fix c
  show "fst (determine_optimization_mode self c) = Ultra
      \<longleftrightarrow> adaptive (thresholds self) < of_int c"
    using assms(1) by (auto simp add: mode_of_count)
qed

theorem classifier_monotone_with_exact_boundaries_witness:
  "moderate (thresholds default_observer) < adaptive (thresholds default_observer)
   \<and> adaptive (thresholds default_observer) < ultra (thresholds default_observer)
   \<and> (337::int) \<le> 400
   \<and> snd (determine_optimization_mode default_observer 337)
        \<le> snd (determine_optimization_mode default_observer 400)
   \<and> fst (determine_optimization_mode default_observer 300) = Moderate
   \<and> fst (determine_optimization_mode default_observer 301) = Adaptive
   \<and> fst (determine_optimization_mode default_observer 375) = Adaptive
   \<and> fst (determine_optimization_mode default_observer 376) = Ultra"
  using classifier_monotone_with_exact_boundaries [of default_observer]
  by simp

subsection \<open>C5\<close>

text \<open>
  C5: one call of the generator adds one to the mode-change counter when the classified
  mode differs from the current mode and leaves it unchanged otherwise, whether or not
  it emits; an emitted signal records the counter after that call. Over a sequence of
  calls the counter grows by the number of places where the classified mode changes,
  and the signal emitted by call \<open>i\<close> records the number of changes up to that call.
\<close>

theorem mode_change_counter:
  "mode_change_count (snd (generate_control_signal self d now)) =
     mode_change_count self
       + (if fst (determine_optimization_mode self (cardinality_count d)) \<noteq> current_mode self
          then 1 else 0)
   \<and> (\<forall>sig. fst (generate_control_signal self d now) = Some sig \<longrightarrow>
         mode_changes_total (state sig)
           = mode_change_count (snd (generate_control_signal self d now)))
   \<and> mode_change_count (snd (generate_all self ds)) =
       mode_change_count self
         + mode_transitions (current_mode self) (map (classified_mode self) ds)
   \<and> (\<forall>i<length ds. \<forall>sig. fst (generate_all self ds) ! i = Some sig \<longrightarrow>
         mode_changes_total (state sig) =
           mode_change_count self
             + mode_transitions (current_mode self)
                 (map (classified_mode self) (take (Suc i) ds)))"
  using generate_counter [of self d now] generate_signal_counter [of self d now]
    generate_all_counter [of self ds] generate_all_signals [of _ ds self]
  by blast
theorem mode_change_counter_witness:
  "mode_change_count (snd (generate_all default_observer
       [(sample 400, 0), (sample 460, 1), (sample 10, 2)])) = 2
   \<and> (1::nat) < length [(sample 400, 0::rat), (sample 460, 1), (sample 10, 2)]
   \<and> reason (the (fst (generate_all default_observer
         [(sample 400, 0), (sample 460, 1), (sample 10, 2)]) ! 1))
       = Cardinality_update 460 60
   \<and> mode_changes_total (state (the (fst (generate_all default_observer
         [(sample 400, 0), (sample 460, 1), (sample 10, 2)]) ! 1))) = 1"
proof -
  let ?ds = "[(sample 400, 0::rat), (sample 460, 1), (sample 10, 2)]"
  note inst = mode_change_counter [of default_observer "sample 400" 0 ?ds]
  have init: "mode_change_count default_observer = 0" "current_mode default_observer = Moderate"
    by (simp_all add: default_observer_def init_observer_def)
  have modes: "map (classified_mode default_observer) ?ds = [Ultra, Ultra, Moderate]"
    by (simp add: classified_mode_def sample_def mode_of_count)
  have "mode_change_count (snd (generate_all default_observer ?ds)) =
      mode_change_count default_observer
        + mode_transitions (current_mode default_observer)
            (map (classified_mode default_observer) ?ds)"
    by (rule inst [THEN conjunct2, THEN conjunct2, THEN conjunct1])
  then have total: "mode_change_count (snd (generate_all default_observer ?ds)) = 2"
    by (simp only: modes init) simp
  have ev: "map_option reason (fst (generate_all default_observer ?ds) ! 1)
      = Some (Cardinality_update 460 60)"
    by (simp add: generate_control_signal_def Let_def sample_def default_observer_def
        init_observer_def determine_optimization_mode_def default_thresholds_def)
  then obtain sg where sg: "fst (generate_all default_observer ?ds) ! 1 = Some sg"
    and rs: "reason sg = Cardinality_update 460 60"
    by auto
  have "mode_changes_total (state sg) =
      mode_change_count default_observer
        + mode_transitions (current_mode default_observer)
            (map (classified_mode default_observer) (take (Suc 1) ?ds))"
  proof (rule inst [THEN conjunct2, THEN conjunct2, THEN conjunct2, rule_format])
    show "1 < length ?ds" by simp
    show "fst (generate_all default_observer ?ds) ! 1 = Some sg" by (rule sg)
  qed
  moreover have "map (classified_mode default_observer) (take (Suc 1) ?ds) = [Ultra, Ultra]"
    using modes by simp
  ultimately have "mode_changes_total (state sg) = 1"
    by (simp only: init) simp
  then show ?thesis using total sg rs by simp
qed

subsection \<open>C6\<close>

text \<open>
  C6: with thresholds 300, 375 and 450 the classifier returns (moderate, 0) at 300,
  (adaptive, 50) at 337, (ultra, 100) at 450 and at 600; every count of 450 or more
  gives (ultra, 100), and no count gives a level above 100.
\<close>

theorem classifier_reference_points:
  assumes "thresholds self = default_thresholds"
  shows "determine_optimization_mode self 300 = (Moderate, 0)
    \<and> determine_optimization_mode self 337 = (Adaptive, 50)
    \<and> determine_optimization_mode self 450 = (Ultra, 100)
    \<and> determine_optimization_mode self 600 = (Ultra, 100)
    \<and> (\<forall>c\<ge>450. determine_optimization_mode self c = (Ultra, 100))
    \<and> (\<forall>c. snd (determine_optimization_mode self c) \<le> 100)"
proof -
  have "determine_optimization_mode self 300 = (Moderate, 0)"
    using assms by (simp add: determine_optimization_mode_def)
  moreover have "determine_optimization_mode self 337 = (Adaptive, 50)"
    using assms by (simp add: determine_optimization_mode_def py_int_def floor_eq_iff)
  moreover have sat: "determine_optimization_mode self c = (Ultra, 100)" if "450 \<le> c" for c
  proof -
    have "(450::rat) \<le> of_int c" using that by linarith
    then show ?thesis using assms by (simp add: determine_optimization_mode_def)
  qed
  moreover have "snd (determine_optimization_mode self c) \<le> 100" for c
    by (rule level_bounds)
  ultimately show ?thesis by simp
qed

theorem classifier_reference_points_witness:
  "thresholds default_observer = default_thresholds
    \<and> determine_optimization_mode default_observer 337 = (Adaptive, 50)
    \<and> (450::int) \<le> 1000
    \<and> determine_optimization_mode default_observer 1000 = (Ultra, 100)"
  using classifier_reference_points [of default_observer] by simp

subsection \<open>C7\<close>



subsection \<open>C8\<close>

text \<open>
  C8, as stated: a qualifying line with an opening brace and no closing brace is skipped
  and counts neither as a distinct series nor in the total. The code has no such check:
  the response \<^verbatim>\<open>phoenix_x{a=1\<close> gives one distinct series and a total of one, where
  the empty response gives none.
\<close>

theorem malformed_line_skipped_counterexample:
  "startswith ''phoenix_x{a=1'' ''phoenix_''
   \<and> CHR ''{'' \<in> set ''phoenix_x{a=1'' \<and> CHR ''}'' \<notin> set ''phoenix_x{a=1''
   \<and> cardinality_of_text ''phoenix_x{a=1'' 0 =
        Inr \<lparr>cardinality_count = 1, total_metrics = 1, timestamp = 0\<rparr>
   \<and> cardinality_of_text '''' 0 =
        Inr \<lparr>cardinality_count = 0, total_metrics = 0, timestamp = 0\<rparr>"
  by (simp add: cardinality_of_text_def phoenix_metrics_def startswith_def series_key_def
      getitem_def)
text \<open>
  C8, amended: for every response text the estimator returns a sample and raises
  nothing; the total is the number of lines that begin with \<^verbatim>\<open>phoenix_\<close> and the count
  is the number of their distinct keys. A line that begins with \<^verbatim>\<open>phoenix_\<close> and has an
  opening brace and no closing brace is not skipped: it is one of the counted lines, and
  its key is the text before the first opening brace, \<open>#\<close>, and the text after it up to
  the next opening brace or the end of the line.
\<close>

theorem unclosed_brace_line_is_counted:
  "cardinality_of_text text now =
     Inr \<lparr>cardinality_count = int (card (key_of_line ` set (phoenix_metrics text))),
          total_metrics = int (length (phoenix_metrics text)),
          timestamp = now\<rparr>
   \<and> (\<forall>l\<in>set (str_split (CHR 0x0A) text).
         startswith l ''phoenix_'' \<and> CHR ''{'' \<in> set l \<and> CHR ''}'' \<notin> set l \<longrightarrow>
           l \<in> set (phoenix_metrics text)
           \<and> series_key l =
               Inr (takeWhile (\<lambda>c. c \<noteq> CHR ''{'') l @ ''#''
                 @ takeWhile (\<lambda>c. c \<noteq> CHR ''{'') (tl (dropWhile (\<lambda>c. c \<noteq> CHR ''{'') l)))
           \<and> 1 \<le> card (key_of_line ` set (phoenix_metrics text))
           \<and> 1 \<le> length (phoenix_metrics text))"
proof (intro conjI ballI impI)
  show "cardinality_of_text text now =
     Inr \<lparr>cardinality_count = int (card (key_of_line ` set (phoenix_metrics text))),
          total_metrics = int (length (phoenix_metrics text)),
          timestamp = now\<rparr>"
    by (rule cardinality_of_text_eq)
next
  fix l
  assume l: "l \<in> set (str_split (CHR 0x0A) text)"
    and q: "startswith l ''phoenix_'' \<and> CHR ''{'' \<in> set l \<and> CHR ''}'' \<notin> set l"
  show m: "l \<in> set (phoenix_metrics text)"
    using l q by (simp add: phoenix_metrics_def phoenix_line_not_comment)
  show "series_key l =
      Inr (takeWhile (\<lambda>c. c \<noteq> CHR ''{'') l @ ''#''
        @ takeWhile (\<lambda>c. c \<noteq> CHR ''{'') (tl (dropWhile (\<lambda>c. c \<noteq> CHR ''{'') l)))"
    using q key_of_unclosed_line [of l] by (simp add: series_key_eq)
  have "key_of_line ` set (phoenix_metrics text) \<noteq> {}" using m by auto
  then have "0 < card (key_of_line ` set (phoenix_metrics text))"
    by (simp add: card_gt_0_iff)
  then show "1 \<le> card (key_of_line ` set (phoenix_metrics text))" by simp
  have "phoenix_metrics text \<noteq> []" using m by auto
  then show "1 \<le> length (phoenix_metrics text)" by (cases "phoenix_metrics text") simp_all
qed
theorem unclosed_brace_line_is_counted_witness:
  "''phoenix_x{a=1'' \<in> set (str_split (CHR 0x0A) ''phoenix_x{a=1'')
   \<and> startswith ''phoenix_x{a=1'' ''phoenix_''
   \<and> CHR ''{'' \<in> set ''phoenix_x{a=1'' \<and> CHR ''}'' \<notin> set ''phoenix_x{a=1''
   \<and> cardinality_of_text ''phoenix_x{a=1'' 0 =
        Inr \<lparr>cardinality_count = 1, total_metrics = 1, timestamp = 0\<rparr>
   \<and> series_key ''phoenix_x{a=1'' = Inr ''phoenix_x#a=1''"
  using unclosed_brace_line_is_counted [of "''phoenix_x{a=1''" 0]
  by (simp add: startswith_def phoenix_metrics_def key_of_line_def)
subsection \<open>C9\<close>

text \<open>
  C9: after the generator has been called on a sample, from any state, a second call on
  a sample with the same count returns nothing.
\<close>

theorem repeated_sample_emits_once:
  assumes "cardinality_count d2 = cardinality_count d1"
  shows "fst (generate_control_signal (snd (generate_control_signal self d1 now1)) d2 now2) = None"
  using assms by (rule generate_repeat_silent)
theorem repeated_sample_emits_once_witness:
  "cardinality_count (sample 400\<lparr>timestamp := 30\<rparr>) = cardinality_count (sample 400)
   \<and> fst (generate_control_signal default_observer (sample 400) 0) \<noteq> None
   \<and> fst (generate_control_signal
            (snd (generate_control_signal default_observer (sample 400) 0))
            (sample 400\<lparr>timestamp := 30\<rparr>) 30) = None"
proof -
  have "fst (determine_optimization_mode default_observer (cardinality_count (sample 400)))
      \<noteq> current_mode default_observer"
    by (simp add: mode_of_count sample_def) (simp add: default_observer_def init_observer_def)
  then have "fst (generate_control_signal default_observer (sample 400) 0) \<noteq> None"
    by (simp only: generate_emits_iff) simp
  then show ?thesis
    using repeated_sample_emits_once
      [of "sample 400\<lparr>timestamp := 30\<rparr>" "sample 400" default_observer 0 30]
    by (simp add: sample_def)
qed

subsection \<open>C10\<close>



end
